theory Spec2Isabelle
  imports Main "HOL-Library.AList"
begin

section \<open>Settings records, database rows and the memo decorator\<close>

text \<open>
  A settings dict of \<^verbatim>\<open>utils/database.py\<close> has the three keys of
  \<^verbatim>\<open>DEFAULT_SETTINGS\<close>. The dicts are Python objects: the manager's memo, the two
  cogs' caches and the \<^verbatim>\<open>/setup\<close> command can hold the same object, and
  \<^verbatim>\<open>/setup\<close> assigns to a key of the object it was handed. So a settings dict is an
  address into \<open>dicts\<close>, the part of Python's heap that holds these objects.
\<close>

type_synonym guild = string
type_synonym addr = nat

record settings =
  units :: string
  decimal_places :: int
  forecast_days :: int

definition DEFAULT_SETTINGS :: settings where
  "DEFAULT_SETTINGS = \<lparr>units = ''metric'', decimal_places = 2, forecast_days = 3\<rparr>"

text \<open>
  A row of the table \<^verbatim>\<open>server_settings\<close>; the column \<^verbatim>\<open>settings\<close> holds
  \<^verbatim>\<open>json.dumps\<close> of the dict, a copy of its value.
\<close>

record row =
  settings_json :: settings
  last_updated :: int
  last_accessed :: int

text \<open>
  \<^verbatim>\<open>functools.lru_cache(maxsize=n)\<close>: an association list, most recently used
  first. A hit moves the entry to the front; a miss stores the computed result at the
  front and evicts the least recently used entry beyond \<open>n\<close>. Whatever the function
  returns is stored, \<^verbatim>\<open>None\<close> and fallback values alike.
\<close>

definition lru_hit :: "'k \<Rightarrow> 'v \<Rightarrow> ('k \<times> 'v) list \<Rightarrow> ('k \<times> 'v) list" where
  "lru_hit k v m = (k, v) # AList.delete k m"

definition lru_store :: "nat \<Rightarrow> 'k \<Rightarrow> 'v \<Rightarrow> ('k \<times> 'v) list \<Rightarrow> ('k \<times> 'v) list" where
  "lru_store maxsize k v m = take maxsize ((k, v) # m)"

section \<open>DatabaseManager\<close>

text \<open>
  The state of a \<^verbatim>\<open>DatabaseManager\<close>: the table (an association list on the primary
  key \<^verbatim>\<open>guild_id\<close>), the memo of \<^verbatim>\<open>get_server_settings\<close>
  (\<^verbatim>\<open>@lru_cache(maxsize=2000)\<close>), and the settings dicts allocated so far. \<open>selects\<close>
  counts the \<^verbatim>\<open>SELECT\<close> statements executed; it is instrumentation, read by no
  operation.
\<close>

record database =
  server_settings :: "(guild \<times> row) list"
  cache :: "(guild \<times> addr) list"
  dicts :: "addr \<Rightarrow> settings"
  next_dict :: addr
  selects :: nat

text \<open>
  Whether the storage layer answers or raises before it has changed the table: an sqlite
  error, or a read that times out after 1 s and whose abandoned worker raises as well. A
  read that times out while its worker still completes later runs concurrently with the
  caller; that interleaving is outside this model.
\<close>

datatype storage = Works | Fails

definition new_dict :: "settings \<Rightarrow> database \<Rightarrow> addr \<times> database" where
  "new_dict v db =
     (next_dict db, db\<lparr>dicts := (dicts db)(next_dict db := v), next_dict := Suc (next_dict db)\<rparr>)"

text \<open>
  \<^verbatim>\<open>init_database\<close>: drops the table and creates it again, empty. An exception is
  logged and leaves the table as it was.
\<close>

definition init_database :: "storage \<Rightarrow> database \<Rightarrow> database" where
  "init_database io db =
     (case io of
        Works \<Rightarrow> db\<lparr>server_settings := []\<rparr>
      | Fails \<Rightarrow> db)"

text \<open>
  \<^verbatim>\<open>_get_server_settings_sync\<close>: a \<^verbatim>\<open>SELECT\<close>; a row found is decoded into a new
  dict, otherwise a row with the defaults is inserted (both timestamps take the column
  default, the current time) and a copy of the defaults is returned.
\<close>

definition get_server_settings_sync :: "int \<Rightarrow> guild \<Rightarrow> database \<Rightarrow> addr \<times> database" where
  "get_server_settings_sync now guild_id db =
     (let db1 = db\<lparr>selects := Suc (selects db)\<rparr> in
      case map_of (server_settings db1) guild_id of
        Some r \<Rightarrow> new_dict (settings_json r) db1
      | None \<Rightarrow>
          new_dict DEFAULT_SETTINGS
            (db1\<lparr>server_settings := server_settings db1 @
               [(guild_id, \<lparr>settings_json = DEFAULT_SETTINGS, last_updated = now,
                  last_accessed = now\<rparr>)]\<rparr>))"

text \<open>
  \<^verbatim>\<open>get_server_settings\<close>, with its decorator: a memo hit returns the memoized object
  without touching the database; a miss runs the synchronous read, and on any exception
  returns a copy of the defaults. The value returned is memoized in both cases.
\<close>

definition get_server_settings :: "storage \<Rightarrow> int \<Rightarrow> guild \<Rightarrow> database \<Rightarrow> addr \<times> database" where
  "get_server_settings io now guild_id db =
     (case map_of (cache db) guild_id of
        Some a \<Rightarrow> (a, db\<lparr>cache := lru_hit guild_id a (cache db)\<rparr>)
      | None \<Rightarrow>
          (let (a, db1) =
                 (case io of
                    Works \<Rightarrow> get_server_settings_sync now guild_id db
                  | Fails \<Rightarrow> new_dict DEFAULT_SETTINGS db)
           in (a, db1\<lparr>cache := lru_store 2000 guild_id a (cache db1)\<rparr>)))"

text \<open>
  \<^verbatim>\<open>set_server_settings\<close>. What one attempt of the write meets: the commit goes
  through, sqlite raises \<^verbatim>\<open>OperationalError\<close> with "database is locked" in its
  text, sqlite raises another \<^verbatim>\<open>OperationalError\<close>, or anything else raises.
\<close>

datatype attempt = Committed | DatabaseLocked | OtherOperationalError | OtherException

definition retries :: nat where
  "retries = 3"

text \<open>\<^verbatim>\<open>retry_delay = 0.1\<close> seconds, here in milliseconds.\<close>

definition retry_delay :: nat where
  "retry_delay = 100"

text \<open>
  The loop \<^verbatim>\<open>for attempt in range(retries)\<close> over the attempt numbers still to run.
  The result is the boolean returned, the arguments of the \<^verbatim>\<open>time.sleep\<close> calls made
  (in milliseconds, in order), and the state. A committed write replaces the row, stamps
  both timestamps with \<open>current_time\<close> and clears the whole memo.
\<close>

fun set_loop ::
  "nat list \<Rightarrow> (nat \<Rightarrow> attempt) \<Rightarrow> int \<Rightarrow> guild \<Rightarrow> settings \<Rightarrow> nat list \<Rightarrow> database
     \<Rightarrow> bool \<times> nat list \<times> database" where
  "set_loop [] env current_time guild_id s sleeps db = (False, sleeps, db)"
| "set_loop (n # rest) env current_time guild_id s sleeps db =
     (case env n of
        Committed \<Rightarrow>
          (True, sleeps,
           db\<lparr>server_settings :=
                 AList.update guild_id
                   \<lparr>settings_json = s, last_updated = current_time,
                     last_accessed = current_time\<rparr> (server_settings db),
               cache := []\<rparr>)
      | DatabaseLocked \<Rightarrow>
          (if n < retries - 1
           then set_loop rest env current_time guild_id s (sleeps @ [retry_delay * 2 ^ n]) db
           else (False, sleeps, db))
      | OtherOperationalError \<Rightarrow> (False, sleeps, db)
      | OtherException \<Rightarrow> (False, sleeps, db))"

definition set_server_settings ::
  "(nat \<Rightarrow> attempt) \<Rightarrow> int \<Rightarrow> guild \<Rightarrow> settings \<Rightarrow> database \<Rightarrow> bool \<times> nat list \<times> database" where
  "set_server_settings env current_time guild_id s db =
     set_loop [0..<retries] env current_time guild_id s [] db"

text \<open>
  \<^verbatim>\<open>cleanup_inactive_servers\<close>: one \<^verbatim>\<open>DELETE\<close> with the two cutoffs; the memo
  is cleared when a row was deleted. An exception is logged and changes nothing.
\<close>

definition doomed :: "int \<Rightarrow> int \<Rightarrow> row \<Rightarrow> bool" where
  "doomed inactive_cutoff old_cutoff r \<longleftrightarrow>
     last_accessed r < inactive_cutoff \<or> last_updated r < old_cutoff"

definition cleanup_inactive_servers ::
  "storage \<Rightarrow> int \<Rightarrow> int \<Rightarrow> int \<Rightarrow> database \<Rightarrow> database" where
  "cleanup_inactive_servers io current_time days_inactive days_old db =
     (case io of
        Fails \<Rightarrow> db
      | Works \<Rightarrow>
          (let inactive_cutoff = current_time - days_inactive * 86400;
               old_cutoff = current_time - days_old * 86400;
               kept = filter (\<lambda>(g, r). \<not> doomed inactive_cutoff old_cutoff r)
                        (server_settings db);
               rowcount = length (server_settings db) - length kept
           in db\<lparr>server_settings := kept,
                 cache := (if rowcount > 0 then [] else cache db)\<rparr>))"

text \<open>A manager over a new database file: no rows, nothing memoized, no dict yet.\<close>

definition fresh_database :: database where
  "fresh_database =
     \<lparr>server_settings = [], cache = [], dicts = (\<lambda>_. DEFAULT_SETTINGS), next_dict = 0,
      selects = 0\<rparr>"

text \<open>The table's \<^verbatim>\<open>PRIMARY KEY\<close> constraint: one row for a \<^verbatim>\<open>guild_id\<close>.\<close>

definition primary_key :: "database \<Rightarrow> bool" where
  "primary_key db \<longleftrightarrow> distinct (map fst (server_settings db))"

text \<open>
  What a committed write leaves: the row of \<open>guild_id\<close> replaced, the memo empty.
\<close>

definition written :: "int \<Rightarrow> guild \<Rightarrow> settings \<Rightarrow> database \<Rightarrow> database" where
  "written current_time guild_id s db =
     db\<lparr>server_settings :=
          AList.update guild_id
            \<lparr>settings_json = s, last_updated = current_time, last_accessed = current_time\<rparr>
            (server_settings db),
        cache := []\<rparr>"

section \<open>Basic facts about the manager\<close>

lemma range_retries: "[0..<retries] = [0, 1, 2]"
  by (simp add: retries_def upt_rec)

lemma map_of_filter_distinct:
  "distinct (map fst xs) \<Longrightarrow>
   map_of (filter (\<lambda>(g, r). P r) xs) k =
     (case map_of xs k of None \<Rightarrow> None | Some r \<Rightarrow> if P r then Some r else None)"
proof (induction xs)
  case Nil
  then show ?case by simp
next
  case (Cons x xs)
  obtain g r where x: "x = (g, r)" by (cases x)
  from Cons.prems x have notin: "g \<notin> fst ` set xs" by simp
  have absent: "map_of (filter (\<lambda>(g, r). P r) xs) g = None"
    using notin by (auto simp: map_of_eq_None_iff)
  have absent': "map_of xs g = None"
    using notin by (simp add: map_of_eq_None_iff)
  from Cons show ?case
    using x absent absent' by (auto split: option.splits)
qed

lemma sweep_table:
  "server_settings (cleanup_inactive_servers Works now di dold db) =
     filter (\<lambda>(g, r). \<not> doomed (now - di * 86400) (now - dold * 86400) r)
       (server_settings db)"
  by (simp add: cleanup_inactive_servers_def Let_def)

lemma sweep_lookup:
  assumes "primary_key db"
  shows "map_of (server_settings (cleanup_inactive_servers Works now di dold db)) g =
     (case map_of (server_settings db) g of
        None \<Rightarrow> None
      | Some r \<Rightarrow>
          if last_accessed r < now - di * 86400 \<or> last_updated r < now - dold * 86400
          then None else Some r)"
proof -
  have d: "distinct (map fst (server_settings db))"
    using assms by (simp add: primary_key_def)
  show ?thesis
    unfolding sweep_table map_of_filter_distinct [OF d]
    by (simp add: doomed_def split: option.splits)
qed

text \<open>The three attempts of a write, unrolled.\<close>

lemma set_server_settings_unrolled:
  "set_server_settings env t g s db =
    (case env 0 of
       Committed \<Rightarrow> (True, [], written t g s db)
     | DatabaseLocked \<Rightarrow>
        (case env 1 of
           Committed \<Rightarrow> (True, [100], written t g s db)
         | DatabaseLocked \<Rightarrow>
            (case env 2 of
               Committed \<Rightarrow> (True, [100, 200], written t g s db)
             | DatabaseLocked \<Rightarrow> (False, [100, 200], db)
             | OtherOperationalError \<Rightarrow> (False, [100, 200], db)
             | OtherException \<Rightarrow> (False, [100, 200], db))
         | OtherOperationalError \<Rightarrow> (False, [100], db)
         | OtherException \<Rightarrow> (False, [100], db))
     | OtherOperationalError \<Rightarrow> (False, [], db)
     | OtherException \<Rightarrow> (False, [], db))"
  unfolding set_server_settings_def range_retries
  by (simp add: retries_def retry_delay_def written_def split: attempt.splits)

section \<open>The retention sweep\<close>

text \<open>
  Claim C6. A sweep that reaches the database deletes exactly the rows whose
  \<open>last_accessed\<close> is older than \<open>inactive_after\<close> days or whose \<open>last_updated\<close> is
  older than \<open>stale_after\<close> days, and leaves every other row as it was: after the sweep
  the row of a guild is gone when it was expired and unchanged otherwise. The witness is
  the scenario of a row accessed 31 days ago and a row accessed 1 day ago, swept with the
  thresholds 30 and 90: only the former is deleted.
\<close>

theorem sweep_deletes_exactly_the_expired:
  assumes "primary_key db"
  shows "map_of (server_settings (cleanup_inactive_servers Works now inactive_after stale_after db)) g =
     (case map_of (server_settings db) g of
        None \<Rightarrow> None
      | Some r \<Rightarrow>
          if last_accessed r < now - inactive_after * 86400 \<or>
             last_updated r < now - stale_after * 86400
          then None else Some r)"
  using assms by (rule sweep_lookup)

theorem sweep_deletes_exactly_the_expired_witness:
  "primary_key
     (fresh_database\<lparr>server_settings :=
        [(''G31'', \<lparr>settings_json = DEFAULT_SETTINGS, last_updated = 1700000000 - 31 * 86400,
            last_accessed = 1700000000 - 31 * 86400\<rparr>),
         (''G1'', \<lparr>settings_json = DEFAULT_SETTINGS, last_updated = 1700000000 - 86400,
            last_accessed = 1700000000 - 86400\<rparr>)]\<rparr>) \<and>
   map_of (server_settings (cleanup_inactive_servers Works 1700000000 30 90
     (fresh_database\<lparr>server_settings :=
        [(''G31'', \<lparr>settings_json = DEFAULT_SETTINGS, last_updated = 1700000000 - 31 * 86400,
            last_accessed = 1700000000 - 31 * 86400\<rparr>),
         (''G1'', \<lparr>settings_json = DEFAULT_SETTINGS, last_updated = 1700000000 - 86400,
            last_accessed = 1700000000 - 86400\<rparr>)]\<rparr>))) ''G31'' = None \<and>
   map_of (server_settings (cleanup_inactive_servers Works 1700000000 30 90
     (fresh_database\<lparr>server_settings :=
        [(''G31'', \<lparr>settings_json = DEFAULT_SETTINGS, last_updated = 1700000000 - 31 * 86400,
            last_accessed = 1700000000 - 31 * 86400\<rparr>),
         (''G1'', \<lparr>settings_json = DEFAULT_SETTINGS, last_updated = 1700000000 - 86400,
            last_accessed = 1700000000 - 86400\<rparr>)]\<rparr>))) ''G1'' =
     Some \<lparr>settings_json = DEFAULT_SETTINGS, last_updated = 1700000000 - 86400,
            last_accessed = 1700000000 - 86400\<rparr>"
proof -
  let ?db = "fresh_database\<lparr>server_settings :=
        [(''G31'', \<lparr>settings_json = DEFAULT_SETTINGS, last_updated = 1700000000 - 31 * 86400,
            last_accessed = 1700000000 - 31 * 86400\<rparr>),
         (''G1'', \<lparr>settings_json = DEFAULT_SETTINGS, last_updated = 1700000000 - 86400,
            last_accessed = 1700000000 - 86400\<rparr>)]\<rparr>"
  have pk: "primary_key ?db"
    by (simp add: primary_key_def)
  show ?thesis
    using pk sweep_deletes_exactly_the_expired [OF pk, of 1700000000 30 90 "''G31''"]
      sweep_deletes_exactly_the_expired [OF pk, of 1700000000 30 90 "''G1''"]
    by simp
qed

section \<open>Writes: bounded retries, a boolean result\<close>

text \<open>
  Claim C7, as amended. For every server and record, \<open>set_server_settings\<close> returns a
  boolean (it is total: no outcome of the storage layer escapes as an exception). It
  makes at most \<open>retries = 3\<close> attempts, so a locked database is retried at most twice:
  every sleep follows an attempt that met a locked database, the \<open>n\<close>-th sleep lasts
  \<open>100 * 2 ^ n\<close> milliseconds, and there are fewer sleeps than \<open>retries\<close>. The result
  is \<open>True\<close> exactly when the last attempt made was committed; three locked attempts
  in a row give \<open>False\<close> after sleeps of 100 and 200 ms, and an error other than a
  locked database gives \<open>False\<close> at once. A failed write leaves the state as it was.
\<close>

theorem set_retries_then_reports_failure:
  "case set_server_settings env t g s db of
     (ok, sleeps, db') \<Rightarrow>
       length sleeps < retries \<and>
       sleeps = map (\<lambda>n. retry_delay * 2 ^ n) [0..<length sleeps] \<and>
       (\<forall>n < length sleeps. env n = DatabaseLocked) \<and>
       (ok \<longleftrightarrow> env (length sleeps) = Committed) \<and>
       (ok \<longrightarrow> db' = written t g s db) \<and>
       (\<not> ok \<longrightarrow> db' = db) \<and>
       ((\<forall>n < retries. env n = DatabaseLocked) \<longrightarrow> \<not> ok \<and> sleeps = [100, 200]) \<and>
       (\<forall>k < retries. (\<forall>n < k. env n = DatabaseLocked) \<and>
            (env k = OtherOperationalError \<or> env k = OtherException) \<longrightarrow> \<not> ok)"
  by (cases "env 0"; cases "env 1"; cases "env 2";
      auto simp add: set_server_settings_unrolled retries_def retry_delay_def
        numeral_2_eq_2 numeral_3_eq_3 less_Suc_eq)

theorem set_retries_then_reports_failure_witness:
  "set_server_settings (\<lambda>n. DatabaseLocked) 1700000000 ''G1'' DEFAULT_SETTINGS fresh_database =
     (False, [100, 200], fresh_database)"
  using set_retries_then_reports_failure
    [of "\<lambda>n. DatabaseLocked" 1700000000 "''G1''" DEFAULT_SETTINGS fresh_database]
  by (auto simp: retries_def split: prod.splits)

text \<open>
  Claim C7 as stated has a locked database retried up to 3 times, with sleeps of 100,
  200 and 400 ms. When the database is locked for the first three attempts and free
  afterwards, a third retry would commit; the code has given up before it, after two
  sleeps.
\<close>

theorem third_retry_is_never_made:
  "set_server_settings (\<lambda>n. if n < 3 then DatabaseLocked else Committed) 1700000000 ''G1''
     DEFAULT_SETTINGS fresh_database =
     (False, [100, 200], fresh_database)"
  by (simp add: set_server_settings_unrolled)

section \<open>Reads and the timestamps\<close>

text \<open>A sequence of reads, each with its storage outcome, its time and its guild.\<close>

fun read_many :: "(storage \<times> int \<times> guild) list \<Rightarrow> database \<Rightarrow> database" where
  "read_many [] db = db"
| "read_many ((io, now, g) # rs) db = read_many rs (snd (get_server_settings io now g db))"

lemma get_table:
  "server_settings (snd (get_server_settings io now g db)) =
     (if map_of (cache db) g = None \<and> io = Works \<and> map_of (server_settings db) g = None
      then server_settings db @
        [(g, \<lparr>settings_json = DEFAULT_SETTINGS, last_updated = now, last_accessed = now\<rparr>)]
      else server_settings db)"
  by (simp add: get_server_settings_def get_server_settings_sync_def new_dict_def Let_def
      split: option.splits storage.splits prod.splits)

lemma get_keeps_row:
  assumes "map_of (server_settings db) g = Some r"
  shows "map_of (server_settings (snd (get_server_settings io now g' db))) g = Some r"
  using assms by (simp add: get_table map_add_Some_iff)

lemma get_primary_key:
  assumes "primary_key db"
  shows "primary_key (snd (get_server_settings io now g db))"
  using assms by (auto simp: get_table primary_key_def map_of_eq_None_iff)

lemma read_many_keeps_row:
  "map_of (server_settings db) g = Some r \<Longrightarrow>
   map_of (server_settings (read_many rs db)) g = Some r"
proof (induction rs arbitrary: db)
  case Nil
  then show ?case by simp
next
  case (Cons x rs)
  obtain io now g' where x: "x = (io, now, g')" by (cases x)
  show ?case
    unfolding x read_many.simps
    by (rule Cons.IH) (rule get_keeps_row [OF Cons.prems])
qed

lemma read_many_primary_key:
  "primary_key db \<Longrightarrow> primary_key (read_many rs db)"
proof (induction rs arbitrary: db)
  case Nil
  then show ?case by simp
next
  case (Cons x rs)
  obtain io now g' where x: "x = (io, now, g')" by (cases x)
  show ?case
    unfolding x read_many.simps
    by (rule Cons.IH) (rule get_primary_key [OF Cons.prems])
qed

text \<open>
  Claim C10. Reading an existing record leaves the table, and so both timestamps of the
  record, as they were: only the insert of a new row and a committed write stamp them.
  Hence a row whose \<open>last_accessed\<close> is older than \<open>inactive_after\<close> days is still
  there, unchanged, after any sequence of reads (of any guild, at any time, however
  recent), and the next sweep that reaches the database deletes it. The witness is a
  guild created by a read, read again one second before the sweep, and swept just over
  30 days after its creation.
\<close>

theorem reads_never_refresh_the_timestamps:
  assumes pk: "primary_key db"
    and row: "map_of (server_settings db) g = Some r"
    and expired: "last_accessed r < now - inactive_after * 86400"
  shows "server_settings (snd (get_server_settings io t g db)) = server_settings db \<and>
         map_of (server_settings (read_many rs db)) g = Some r \<and>
         map_of (server_settings
           (cleanup_inactive_servers Works now inactive_after stale_after (read_many rs db))) g = None"
proof -
  have one: "server_settings (snd (get_server_settings io t g db)) = server_settings db"
    using row by (simp add: get_table)
  have kept: "map_of (server_settings (read_many rs db)) g = Some r"
    using row by (rule read_many_keeps_row)
  have "map_of (server_settings
           (cleanup_inactive_servers Works now inactive_after stale_after (read_many rs db))) g = None"
    using expired by (simp add: sweep_lookup [OF read_many_primary_key [OF pk]] kept)
  with one kept show ?thesis by simp
qed

theorem reads_never_refresh_the_timestamps_witness:
  "primary_key (snd (get_server_settings Works 1700000000 ''G1'' fresh_database)) \<and>
   map_of (server_settings (snd (get_server_settings Works 1700000000 ''G1'' fresh_database)))
     ''G1'' =
     Some \<lparr>settings_json = DEFAULT_SETTINGS, last_updated = 1700000000,
            last_accessed = 1700000000\<rparr> \<and>
   map_of (server_settings
     (cleanup_inactive_servers Works 1702592001 30 90
        (read_many [(Works, 1702592000, ''G1'')]
           (snd (get_server_settings Works 1700000000 ''G1'' fresh_database))))) ''G1'' = None"
proof -
  let ?db = "snd (get_server_settings Works 1700000000 ''G1'' fresh_database)"
  let ?r = "\<lparr>settings_json = DEFAULT_SETTINGS, last_updated = 1700000000,
            last_accessed = 1700000000\<rparr>"
  have tbl: "server_settings ?db = [(''G1'', ?r)]"
    by (simp add: get_table fresh_database_def)
  have pk: "primary_key ?db"
    by (simp add: primary_key_def tbl)
  have row: "map_of (server_settings ?db) ''G1'' = Some ?r"
    by (simp add: tbl)
  have expired: "last_accessed ?r < 1702592001 - 30 * 86400"
    by simp
  show ?thesis
    using pk row
      reads_never_refresh_the_timestamps [OF pk row expired,
        of Works 0 "[(Works, 1702592000, ''G1'')]" 90]
    by simp
qed

section \<open>A committed write clears the memo of every guild\<close>

lemma set_server_settings_state:
  "snd (snd (set_server_settings env t g s db)) =
     (if fst (set_server_settings env t g s db) then written t g s db else db)"
  by (simp add: set_server_settings_unrolled split: attempt.splits)

lemma get_after_clear:
  assumes "cache db = []"
  shows "selects (snd (get_server_settings Works now g db)) = Suc (selects db)"
    and "map_of (server_settings db) g = Some r \<Longrightarrow>
         dicts (snd (get_server_settings Works now g db))
           (fst (get_server_settings Works now g db)) = settings_json r"
  using assms
  by (simp_all add: get_server_settings_def get_server_settings_sync_def new_dict_def Let_def
      split: option.splits prod.splits)

text \<open>
  A write commits when an attempt within the bound is committed and every attempt before
  it met a locked database.
\<close>

lemma set_server_settings_commits:
  assumes "k < retries" and "env k = Committed" and "\<forall>j<k. env j = DatabaseLocked"
  shows "fst (set_server_settings env t g s db)"
proof -
  from assms(1) have "k = 0 \<or> k = 1 \<or> k = 2"
    by (auto simp: retries_def)
  then show ?thesis
    using assms(2,3) by (auto simp: set_server_settings_unrolled)
qed

text \<open>
  Claim C9. Let a write for guild \<open>g\<close> commit (at once or after retries), and let
  another guild \<open>g'\<close> have a memoized record before it. Before the write a read of
  \<open>g'\<close> is answered from the memo (no \<open>SELECT\<close>). The write returns \<open>True\<close> and leaves
  the memo empty, for every guild; so the next read of \<open>g'\<close> finds no memo entry,
  executes a \<open>SELECT\<close> and returns the stored row's settings.
\<close>

theorem successful_set_clears_the_whole_memo:
  assumes k: "k < retries" and commit: "env k = Committed"
    and locked: "\<forall>j<k. env j = DatabaseLocked"
    and memo: "map_of (cache db) g' = Some a0"
  shows "get_server_settings io now g' db = (a0, db\<lparr>cache := lru_hit g' a0 (cache db)\<rparr>) \<and>
         fst (set_server_settings env t g s db) \<and>
         cache (snd (snd (set_server_settings env t g s db))) = [] \<and>
         selects (snd (get_server_settings Works now' g'
           (snd (snd (set_server_settings env t g s db))))) = Suc (selects db) \<and>
         (\<forall>r. map_of (server_settings (snd (snd (set_server_settings env t g s db)))) g' = Some r \<longrightarrow>
              dicts (snd (get_server_settings Works now' g'
                      (snd (snd (set_server_settings env t g s db)))))
                (fst (get_server_settings Works now' g'
                      (snd (snd (set_server_settings env t g s db))))) = settings_json r)"
proof -
  let ?db' = "snd (snd (set_server_settings env t g s db))"
  have hit: "get_server_settings io now g' db = (a0, db\<lparr>cache := lru_hit g' a0 (cache db)\<rparr>)"
    using memo by (simp add: get_server_settings_def)
  have ok: "fst (set_server_settings env t g s db)"
    using k commit locked by (rule set_server_settings_commits)
  then have db': "?db' = written t g s db"
    by (simp add: set_server_settings_state)
  then have empty: "cache ?db' = []"
    by (simp add: written_def)
  have sel: "selects ?db' = selects db"
    using db' by (simp add: written_def)
  show ?thesis
    using hit ok empty get_after_clear [OF empty] sel by simp
qed

theorem successful_set_clears_the_whole_memo_witness:
  "map_of (cache (snd (get_server_settings Works 5 ''G2'' fresh_database))) ''G2'' = Some 0 \<and>
   fst (get_server_settings Works 6 ''G2'' (snd (get_server_settings Works 5 ''G2'' fresh_database))) = 0 \<and>
   selects (snd (get_server_settings Works 6 ''G2''
     (snd (get_server_settings Works 5 ''G2'' fresh_database)))) = 1 \<and>
   fst (set_server_settings (\<lambda>n. if n = 0 then DatabaseLocked else Committed) 7 ''G1''
     DEFAULT_SETTINGS (snd (get_server_settings Works 5 ''G2'' fresh_database))) \<and>
   cache (snd (snd (set_server_settings (\<lambda>n. if n = 0 then DatabaseLocked else Committed) 7 ''G1''
     DEFAULT_SETTINGS (snd (get_server_settings Works 5 ''G2'' fresh_database))))) = [] \<and>
   selects (snd (get_server_settings Works 8 ''G2''
     (snd (snd (set_server_settings (\<lambda>n. if n = 0 then DatabaseLocked else Committed) 7 ''G1''
        DEFAULT_SETTINGS (snd (get_server_settings Works 5 ''G2'' fresh_database))))))) = 2"
proof -
  let ?db = "snd (get_server_settings Works 5 ''G2'' fresh_database)"
  let ?env = "\<lambda>n::nat. if n = 0 then DatabaseLocked else Committed"
  have db: "?db = \<lparr>server_settings = [(''G2'', \<lparr>settings_json = DEFAULT_SETTINGS, last_updated = 5,
       last_accessed = 5\<rparr>)], cache = [(''G2'', 0)],
       dicts = (\<lambda>_. DEFAULT_SETTINGS), next_dict = 1, selects = 1\<rparr>"
    by (simp add: get_server_settings_def get_server_settings_sync_def new_dict_def Let_def
        fresh_database_def lru_store_def fun_eq_iff)
  have k: "(1::nat) < retries"
    by (simp add: retries_def)
  have commit: "?env 1 = Committed"
    by simp
  have locked: "\<forall>j<1. ?env j = DatabaseLocked"
    by simp
  have memo: "map_of (cache ?db) ''G2'' = Some 0"
    by (simp add: db)
  have sel: "selects ?db = 1"
    by (simp add: db)
  show ?thesis
    using memo sel
      successful_set_clears_the_whole_memo [OF k commit locked memo, of Works 6 7 "''G1''"
        DEFAULT_SETTINGS 8]
    by simp
qed

section \<open>Reads before any write\<close>

text \<open>
  The states a manager reaches, from a new database file, without a write for guild
  \<open>g\<close>: by reads of any guild (with or without a storage error), writes for other
  guilds and sweeps.
\<close>

inductive unset :: "guild \<Rightarrow> database \<Rightarrow> bool" for g :: guild where
  unset_fresh: "unset g fresh_database"
| unset_get: "unset g db \<Longrightarrow> unset g (snd (get_server_settings io now g' db))"
| unset_set: "unset g db \<Longrightarrow> g' \<noteq> g \<Longrightarrow>
     unset g (snd (snd (set_server_settings env t g' s db)))"
| unset_sweep: "unset g db \<Longrightarrow>
     unset g (cleanup_inactive_servers io now days_inactive days_old db)"

text \<open>
  The invariant of those states: a row of \<open>g\<close> holds the defaults, and so does the
  object memoized for \<open>g\<close>.
\<close>

definition defaults_only :: "guild \<Rightarrow> database \<Rightarrow> bool" where
  "defaults_only g db \<longleftrightarrow>
     (\<forall>r. (g, r) \<in> set (server_settings db) \<longrightarrow> settings_json r = DEFAULT_SETTINGS) \<and>
     (\<forall>a. map_of (cache db) g = Some a \<longrightarrow> a < next_dict db \<and> dicts db a = DEFAULT_SETTINGS)"

lemma map_of_take_Some:
  "map_of (take n xs) k = Some v \<Longrightarrow> map_of xs k = Some v"
proof (induction xs arbitrary: n)
  case Nil
  then show ?case by simp
next
  case (Cons x xs)
  then show ?case
    by (cases n) (auto split: if_splits)
qed

lemma map_of_delete_Some:
  "map_of (AList.delete k' xs) k = Some v \<Longrightarrow> map_of xs k = Some v"
  by (simp add: delete_conv' split: if_splits)

lemma set_update_other:
  "(g, r) \<in> set (AList.update g' v xs) \<Longrightarrow> g \<noteq> g' \<Longrightarrow> (g, r) \<in> set xs"
  by (induction xs) (auto split: if_splits)

lemma defaults_only_get:
  assumes "defaults_only g db"
  shows "defaults_only g (snd (get_server_settings io now g' db))"
proof (cases "map_of (cache db) g'")
  case (Some a)
  then show ?thesis
    using assms
    by (auto simp: defaults_only_def get_server_settings_def lru_hit_def
        dest: map_of_delete_Some)
next
  case None
  show ?thesis
  proof (cases io)
    case Fails
    then show ?thesis
      using assms None
      by (auto simp: defaults_only_def get_server_settings_def new_dict_def lru_store_def
          dest!: map_of_take_Some split: if_splits)
  next
    case Works
    show ?thesis
    proof (cases "map_of (server_settings db) g'")
      case absent: None
      then show ?thesis
        using assms None Works
        by (auto simp: defaults_only_def get_server_settings_def get_server_settings_sync_def
            new_dict_def lru_store_def Let_def
            dest!: map_of_take_Some split: if_splits)
    next
      case (Some r)
      then have "(g', r) \<in> set (server_settings db)"
        by (rule map_of_SomeD)
      then show ?thesis
        using assms None Works Some
        by (auto simp: defaults_only_def get_server_settings_def get_server_settings_sync_def
            new_dict_def lru_store_def Let_def
            dest!: map_of_take_Some split: if_splits)
    qed
  qed
qed

lemma defaults_only_set:
  assumes "defaults_only g db" and "g' \<noteq> g"
  shows "defaults_only g (snd (snd (set_server_settings env t g' s db)))"
  using assms
  by (auto simp: set_server_settings_state defaults_only_def written_def
      dest: set_update_other)

lemma defaults_only_sweep:
  assumes "defaults_only g db"
  shows "defaults_only g (cleanup_inactive_servers io now di dold db)"
  using assms
  by (cases io) (auto simp: defaults_only_def cleanup_inactive_servers_def Let_def)

lemma unset_defaults_only: "unset g db \<Longrightarrow> defaults_only g db"
proof (induction rule: unset.induct)
  case unset_fresh
  show ?case by (simp add: defaults_only_def fresh_database_def)
next
  case (unset_get db io now g')
  then show ?case by (simp add: defaults_only_get)
next
  case (unset_set db g' env t s)
  then show ?case by (simp add: defaults_only_set)
next
  case (unset_sweep db io now days_inactive days_old)
  then show ?case by (simp add: defaults_only_sweep)
qed

lemma get_returns_memo_or_fresh:
  "dicts (snd (get_server_settings io now g db)) (fst (get_server_settings io now g db)) =
     (case map_of (cache db) g of
        Some a \<Rightarrow> dicts db a
      | None \<Rightarrow>
          (case io of
             Fails \<Rightarrow> DEFAULT_SETTINGS
           | Works \<Rightarrow>
               (case map_of (server_settings db) g of
                  None \<Rightarrow> DEFAULT_SETTINGS
                | Some r \<Rightarrow> settings_json r)))"
  by (simp add: get_server_settings_def get_server_settings_sync_def new_dict_def Let_def
      split: option.splits storage.splits prod.splits)

text \<open>
  What holds of every guild with no prior write: \<open>get_server_settings\<close> returns a dict
  equal to the default record, also when the storage raises; and a read that misses the
  memo and reaches the database leaves a row with the defaults for the guild.
\<close>

lemma get_without_prior_set_returns_defaults:
  assumes "unset g db"
  shows "dicts (snd (get_server_settings io now g db)) (fst (get_server_settings io now g db)) =
           DEFAULT_SETTINGS \<and>
         (io = Works \<and> map_of (cache db) g = None \<longrightarrow>
            (\<exists>r. map_of (server_settings (snd (get_server_settings io now g db))) g = Some r \<and>
                 settings_json r = DEFAULT_SETTINGS))"
proof -
  have inv: "defaults_only g db"
    using assms by (rule unset_defaults_only)
  have inv': "defaults_only g (snd (get_server_settings io now g db))"
    using inv by (rule defaults_only_get)
  have val: "dicts (snd (get_server_settings io now g db))
      (fst (get_server_settings io now g db)) = DEFAULT_SETTINGS"
    using inv
    by (auto simp: get_returns_memo_or_fresh defaults_only_def
        split: option.splits storage.splits dest: map_of_SomeD)
  have persisted: "\<exists>r. map_of (server_settings (snd (get_server_settings io now g db))) g = Some r \<and>
      settings_json r = DEFAULT_SETTINGS"
    if "io = Works" and "map_of (cache db) g = None"
  proof (cases "map_of (server_settings db) g")
    case None
    then show ?thesis
      using that by (simp add: get_table map_add_Some_iff)
  next
    case (Some r)
    then have "settings_json r = DEFAULT_SETTINGS"
      using inv by (auto simp: defaults_only_def dest: map_of_SomeD)
    then show ?thesis
      using that Some by (simp add: get_table)
  qed
  show ?thesis
    using val persisted by blast
qed

lemma get_without_prior_set_returns_defaults_at_first_read:
  "unset ''G1'' fresh_database \<and>
   dicts (snd (get_server_settings Works 1700000000 ''G1'' fresh_database))
     (fst (get_server_settings Works 1700000000 ''G1'' fresh_database)) = DEFAULT_SETTINGS \<and>
   map_of (server_settings (snd (get_server_settings Works 1700000000 ''G1'' fresh_database)))
     ''G1'' =
     Some \<lparr>settings_json = DEFAULT_SETTINGS, last_updated = 1700000000,
            last_accessed = 1700000000\<rparr> \<and>
   dicts (snd (get_server_settings Fails 1700000000 ''G1'' fresh_database))
     (fst (get_server_settings Fails 1700000000 ''G1'' fresh_database)) = DEFAULT_SETTINGS"
proof -
  have u: "unset ''G1'' fresh_database"
    by (rule unset_fresh)
  have tbl: "map_of (server_settings (snd (get_server_settings Works 1700000000 ''G1'' fresh_database)))
     ''G1'' =
     Some \<lparr>settings_json = DEFAULT_SETTINGS, last_updated = 1700000000,
            last_accessed = 1700000000\<rparr>"
    by (simp add: get_table fresh_database_def)
  show ?thesis
    using u tbl
      get_without_prior_set_returns_defaults [OF u, of Works 1700000000]
      get_without_prior_set_returns_defaults [OF u, of Fails 1700000000]
    by simp
qed

text \<open>
  Claim C5 says that a read of a guild with no prior write returns the default record and
  persists it as a side effect, and that a storage error still yields the defaults. On
  the code: the first read of G1 meets a storage error and returns the defaults, which
  the decorator memoizes. The next read, with the storage working, is answered from the
  memo: it returns the defaults, executes no \<open>SELECT\<close> and leaves no row for G1, so the
  defaults are not persisted.
\<close>

theorem fallback_default_is_not_persisted:
  "dicts (snd (get_server_settings Works 2 ''G1''
       (snd (get_server_settings Fails 1 ''G1'' fresh_database))))
     (fst (get_server_settings Works 2 ''G1''
       (snd (get_server_settings Fails 1 ''G1'' fresh_database)))) = DEFAULT_SETTINGS \<and>
   selects (snd (get_server_settings Works 2 ''G1''
       (snd (get_server_settings Fails 1 ''G1'' fresh_database)))) = 0 \<and>
   map_of (server_settings (snd (get_server_settings Works 2 ''G1''
       (snd (get_server_settings Fails 1 ''G1'' fresh_database))))) ''G1'' = None"
proof -
  have db1: "snd (get_server_settings Fails 1 ''G1'' fresh_database) =
      \<lparr>server_settings = [], cache = [(''G1'', 0)], dicts = (\<lambda>_. DEFAULT_SETTINGS),
       next_dict = 1, selects = 0\<rparr>"
    by (simp add: get_server_settings_def new_dict_def fresh_database_def lru_store_def
        fun_eq_iff)
  show ?thesis
    unfolding db1 by (simp add: get_server_settings_def)
qed

text \<open>
  The memoized fallback hides a stored record as well: after a committed write, a read
  that meets a storage error and then a read with the storage working both return the
  defaults, the second without a \<open>SELECT\<close>.
\<close>

lemma fallback_default_hides_a_stored_record:
  "map_of (server_settings (written 1 ''G1''
       \<lparr>units = ''imperial'', decimal_places = 1, forecast_days = 2\<rparr> fresh_database)) ''G1'' =
     Some \<lparr>settings_json = \<lparr>units = ''imperial'', decimal_places = 1, forecast_days = 2\<rparr>,
            last_updated = 1, last_accessed = 1\<rparr> \<and>
   dicts (snd (get_server_settings Works 3 ''G1''
       (snd (get_server_settings Fails 2 ''G1'' (written 1 ''G1''
          \<lparr>units = ''imperial'', decimal_places = 1, forecast_days = 2\<rparr> fresh_database)))))
     (fst (get_server_settings Works 3 ''G1''
       (snd (get_server_settings Fails 2 ''G1'' (written 1 ''G1''
          \<lparr>units = ''imperial'', decimal_places = 1, forecast_days = 2\<rparr> fresh_database))))) =
     DEFAULT_SETTINGS \<and>
   selects (snd (get_server_settings Works 3 ''G1''
       (snd (get_server_settings Fails 2 ''G1'' (written 1 ''G1''
          \<lparr>units = ''imperial'', decimal_places = 1, forecast_days = 2\<rparr> fresh_database))))) = 0"
  by code_simp

section \<open>What removes a stored record\<close>

text \<open>
  \<^verbatim>\<open>DatabaseManager.__init__\<close> over a database file whose table holds \<open>file\<close>: it
  runs \<^verbatim>\<open>init_database\<close>; nothing is memoized yet.
\<close>

definition DatabaseManager :: "storage \<Rightarrow> (guild \<times> row) list \<Rightarrow> database" where
  "DatabaseManager io file =
     init_database io
       \<lparr>server_settings = file, cache = [], dicts = (\<lambda>_. DEFAULT_SETTINGS), next_dict = 0,
        selects = 0\<rparr>"

text \<open>
  Claim C1, as amended. A read keeps every stored record as it is, and a write keeps
  every stored record but the written guild's, which it replaces when it commits.
  Store initialization is different: it drops the table, so the manager starts with no
  record, whatever the file held.
\<close>

theorem reads_and_writes_keep_every_record:
  assumes "map_of (server_settings db) g = Some r"
  shows "map_of (server_settings (snd (get_server_settings io now g' db))) g = Some r \<and>
         map_of (server_settings (snd (snd (set_server_settings env t g' s db)))) g =
           (if g' = g \<and> fst (set_server_settings env t g' s db)
            then Some \<lparr>settings_json = s, last_updated = t, last_accessed = t\<rparr>
            else Some r) \<and>
         server_settings (DatabaseManager Works (server_settings db)) = []"
proof -
  have a: "map_of (server_settings (snd (get_server_settings io now g' db))) g = Some r"
    using assms by (rule get_keeps_row)
  have b: "map_of (server_settings (snd (snd (set_server_settings env t g' s db)))) g =
           (if g' = g \<and> fst (set_server_settings env t g' s db)
            then Some \<lparr>settings_json = s, last_updated = t, last_accessed = t\<rparr>
            else Some r)"
    using assms by (simp add: set_server_settings_state written_def update_conv')
  have c: "server_settings (DatabaseManager Works (server_settings db)) = []"
    by (simp add: DatabaseManager_def init_database_def)
  from a b c show ?thesis by simp
qed

theorem reads_and_writes_keep_every_record_witness:
  "map_of (server_settings (snd (get_server_settings Works 5 ''G1'' fresh_database))) ''G1'' =
     Some \<lparr>settings_json = DEFAULT_SETTINGS, last_updated = 5, last_accessed = 5\<rparr> \<and>
   map_of (server_settings (snd (get_server_settings Works 6 ''G2''
     (snd (get_server_settings Works 5 ''G1'' fresh_database))))) ''G1'' =
     Some \<lparr>settings_json = DEFAULT_SETTINGS, last_updated = 5, last_accessed = 5\<rparr> \<and>
   map_of (server_settings (snd (snd (set_server_settings (\<lambda>n. Committed) 7 ''G2''
     \<lparr>units = ''imperial'', decimal_places = 1, forecast_days = 2\<rparr>
     (snd (get_server_settings Works 5 ''G1'' fresh_database)))))) ''G1'' =
     Some \<lparr>settings_json = DEFAULT_SETTINGS, last_updated = 5, last_accessed = 5\<rparr>"
proof -
  have row: "map_of (server_settings (snd (get_server_settings Works 5 ''G1'' fresh_database)))
      ''G1'' = Some \<lparr>settings_json = DEFAULT_SETTINGS, last_updated = 5, last_accessed = 5\<rparr>"
    by (simp add: get_table fresh_database_def)
  show ?thesis
    using row
      reads_and_writes_keep_every_record [OF row, of Works 6 "''G2''" "\<lambda>n. Committed" 7
        "\<lparr>units = ''imperial'', decimal_places = 1, forecast_days = 2\<rparr>"]
    by simp
qed

text \<open>
  Claim C1 as stated counts store initialization among the operations that delete
  nothing. A record created by a read is gone once a manager is constructed over the
  same file.
\<close>

theorem initialization_drops_stored_records:
  "map_of (server_settings (snd (get_server_settings Works 5 ''G1'' fresh_database))) ''G1'' =
     Some \<lparr>settings_json = DEFAULT_SETTINGS, last_updated = 5, last_accessed = 5\<rparr> \<and>
   map_of (server_settings (DatabaseManager Works
     (server_settings (snd (get_server_settings Works 5 ''G1'' fresh_database))))) ''G1'' = None"
  by (simp add: get_table fresh_database_def DatabaseManager_def init_database_def)

section \<open>The external lookups and their memos\<close>

text \<open>
  \<^verbatim>\<open>str.lower\<close> on the ASCII letters; every other character is left as it is.
\<close>

definition str_lower :: "string \<Rightarrow> string" where
  "str_lower s =
     map (\<lambda>c. case map_of (zip ''ABCDEFGHIJKLMNOPQRSTUVWXYZ'' ''abcdefghijklmnopqrstuvwxyz'') c of
                 Some l \<Rightarrow> l
               | None \<Rightarrow> c) s"

text \<open>
  What \<^verbatim>\<open>getcods\<close> returns for a place: the dict with the keys \<^verbatim>\<open>name\<close>,
  \<^verbatim>\<open>lat\<close> and \<^verbatim>\<open>lon\<close>. The coordinates are only passed on and compared, so their
  type is left open; so is the type of the dict that \<^verbatim>\<open>getweather\<close> returns.
\<close>

record 'c city_info =
  name :: string
  lat :: 'c
  lon :: 'c

text \<open>
  What the HTTP request of \<^verbatim>\<open>getcods\<close> meets: an exception, or a response with its
  status code and the decoded list of locations.
\<close>

datatype 'c geocoding_reply = GeocodingRaised | GeocodingReply nat "'c city_info list"

text \<open>
  The state of the modules \<^verbatim>\<open>geocoding\<close> and \<^verbatim>\<open>fetchweather\<close>: the memos of
  \<^verbatim>\<open>getcods\<close> (\<^verbatim>\<open>@lru_cache(maxsize=1000)\<close>) and \<^verbatim>\<open>getweather\<close>
  (\<^verbatim>\<open>@lru_cache(maxsize=128)\<close>). The two counters count the requests sent to the
  providers; they are instrumentation, read by no operation.
\<close>

record ('c, 'w) providers =
  getcods_memo :: "(string \<times> 'c city_info option) list"
  getweather_memo :: "(('c \<times> 'c \<times> int) \<times> 'w option) list"
  geocoding_requests :: nat
  weather_requests :: nat

definition new_providers :: "('c, 'w) providers" where
  "new_providers =
     \<lparr>getcods_memo = [], getweather_memo = [], geocoding_requests = 0, weather_requests = 0\<rparr>"

text \<open>
  The body of \<^verbatim>\<open>getcods\<close>: the first location of a non-empty answer with status
  200, and \<^verbatim>\<open>None\<close> otherwise, an exception included.
\<close>

definition getcods_body :: "'c geocoding_reply \<Rightarrow> 'c city_info option" where
  "getcods_body reply =
     (case reply of
        GeocodingRaised \<Rightarrow> None
      | GeocodingReply status_code data \<Rightarrow>
          (if status_code = 200 \<and> data \<noteq> [] then Some (hd data) else None))"

text \<open>
  \<^verbatim>\<open>getcods\<close> with its decorator: the body runs, and the provider is asked, only when
  the memo has no entry for the city; what the body returns is memoized.
\<close>

definition getcods ::
  "'c geocoding_reply \<Rightarrow> string \<Rightarrow> ('c, 'w) providers \<Rightarrow> 'c city_info option \<times> ('c, 'w) providers" where
  "getcods reply city p =
     (case map_of (getcods_memo p) city of
        Some r \<Rightarrow> (r, p\<lparr>getcods_memo := lru_hit city r (getcods_memo p)\<rparr>)
      | None \<Rightarrow>
          (let r = getcods_body reply in
           (r, p\<lparr>getcods_memo := lru_store 1000 city r (getcods_memo p),
                 geocoding_requests := Suc (geocoding_requests p)\<rparr>)))"

text \<open>
  \<^verbatim>\<open>getweather\<close> with its decorator. \<open>reply\<close> is what the body returns if it runs:
  the decoded forecast, or \<^verbatim>\<open>None\<close> when anything in it raised.
\<close>

definition getweather ::
  "'w option \<Rightarrow> 'c \<Rightarrow> 'c \<Rightarrow> int \<Rightarrow> ('c, 'w) providers \<Rightarrow> 'w option \<times> ('c, 'w) providers" where
  "getweather reply latitude longitude days p =
     (let key = (latitude, longitude, days) in
      case map_of (getweather_memo p) key of
        Some r \<Rightarrow> (r, p\<lparr>getweather_memo := lru_hit key r (getweather_memo p)\<rparr>)
      | None \<Rightarrow>
          (reply, p\<lparr>getweather_memo := lru_store 128 key reply (getweather_memo p),
                     weather_requests := Suc (weather_requests p)\<rparr>))"

section \<open>The caches of the Weather cog\<close>

record ('c, 'w) weather_cog =
  weather_settings_cache :: "guild \<rightharpoonup> addr \<times> int"
  weather_city_cache :: "string \<rightharpoonup> 'c city_info \<times> int"
  weather_cache :: "string \<rightharpoonup> 'w \<times> int"
  cache_ttl :: int

definition Weather_init :: "('c, 'w) weather_cog" where
  "Weather_init =
     \<lparr>weather_settings_cache = Map.empty, weather_city_cache = Map.empty, weather_cache = Map.empty,
      cache_ttl = 300\<rparr>"

text \<open>
  \<^verbatim>\<open>get_cached_city_info\<close>: an entry younger than \<^verbatim>\<open>_cache_ttl\<close> is returned;
  otherwise \<^verbatim>\<open>getcods\<close> is called with the city as typed, and a result other than
  \<^verbatim>\<open>None\<close> is stored under the lower-cased city.
\<close>

definition get_cached_city_info ::
  "'c geocoding_reply \<Rightarrow> int \<Rightarrow> string \<Rightarrow> ('c, 'w) weather_cog \<times> ('c, 'w) providers
     \<Rightarrow> 'c city_info option \<times> ('c, 'w) weather_cog \<times> ('c, 'w) providers" where
  "get_cached_city_info reply current_time city st =
     (let (w, p) = st;
          cache_key = str_lower city;
          cached = weather_city_cache w cache_key;
          fresh = (case cached of
                     Some (data, timestamp) \<Rightarrow> current_time - timestamp < cache_ttl w
                   | None \<Rightarrow> False)
      in if fresh then (map_option fst cached, w, p)
         else (let (city_info, p') = getcods reply city p in
               case city_info of
                 Some info \<Rightarrow>
                   (city_info, w\<lparr>weather_city_cache := (weather_city_cache w)(cache_key \<mapsto> (info, current_time))\<rparr>, p')
               | None \<Rightarrow> (city_info, w, p')))"

text \<open>\<^verbatim>\<open>get_cached_weather\<close>, of the same shape, with the literal 300 as its TTL.\<close>

definition get_cached_weather ::
  "'w option \<Rightarrow> int \<Rightarrow> string \<Rightarrow> 'c city_info \<Rightarrow> int \<Rightarrow> ('c, 'w) weather_cog \<times> ('c, 'w) providers
     \<Rightarrow> 'w option \<times> ('c, 'w) weather_cog \<times> ('c, 'w) providers" where
  "get_cached_weather reply current_time cache_key info days st =
     (let (w, p) = st;
          cached = weather_cache w cache_key;
          fresh = (case cached of
                     Some (data, timestamp) \<Rightarrow> current_time - timestamp < 300
                   | None \<Rightarrow> False)
      in if fresh then (map_option fst cached, w, p)
         else (let (weather_data, p') = getweather reply (lat info) (lon info) days p in
               case weather_data of
                 Some data \<Rightarrow>
                   (weather_data,
                    w\<lparr>weather_cache := (weather_cache w)(cache_key \<mapsto> (data, current_time))\<rparr>, p')
               | None \<Rightarrow> (weather_data, w, p')))"

section \<open>A failed lookup and the memo\<close>

text \<open>A place as the geocoding provider describes it, for the scenarios below.\<close>

definition atlantis :: "int city_info" where
  "atlantis = \<lparr>name = ''Atlantis'', lat = 31, lon = -24\<rparr>"

text \<open>
  In the cog's own cache a failed lookup leaves no entry, and an entry younger than the
  TTL is returned as it was stored.
\<close>

lemma failed_lookup_stores_no_entry:
  assumes "map_of (getcods_memo p) city = None" and "getcods_body reply = None"
    and "weather_city_cache w (str_lower city) = None"
  shows "get_cached_city_info reply t city (w, p) =
           (None, w, p\<lparr>getcods_memo := lru_store 1000 city None (getcods_memo p),
                        geocoding_requests := Suc (geocoding_requests p)\<rparr>)"
  using assms by (simp add: get_cached_city_info_def getcods_def Let_def)

lemma fresh_weather_entry_is_returned:
  assumes "weather_cache w cache_key = Some (data, timestamp)" and "t - timestamp < 300"
  shows "get_cached_weather reply t cache_key info days (w, p) = (Some data, w, p)"
  using assms by (simp add: get_cached_weather_def Let_def)

text \<open>
  Claim C2 says that after a provider call that returned null the next get with the same
  key invokes the provider again, the null being memoized at no layer. On the code: the
  geocoding request for \<open>Atlantis\<close> raises, the lookup returns \<^verbatim>\<open>None\<close> and the
  cog's cache stays empty, but \<^verbatim>\<open>getcods\<close> has memoized the \<^verbatim>\<open>None\<close>. One second
  later the provider would answer with the city; the second lookup returns
  \<^verbatim>\<open>None\<close> again and no second request is sent.
\<close>

theorem failed_lookup_is_memoized:
  "(case get_cached_city_info GeocodingRaised 1000 ''Atlantis''
          (Weather_init :: (int, string) weather_cog, new_providers) of
      (r1, w1, p1) \<Rightarrow>
        r1 = None \<and> weather_city_cache w1 ''atlantis'' = None \<and> geocoding_requests p1 = 1 \<and>
        (case get_cached_city_info (GeocodingReply 200 [atlantis]) 1001 ''Atlantis'' (w1, p1) of
           (r2, w2, p2) \<Rightarrow> r2 = None \<and> geocoding_requests p2 = 1))"
  by (simp add: get_cached_city_info_def getcods_def getcods_body_def Weather_init_def
      new_providers_def str_lower_def lru_store_def lru_hit_def Let_def)


section \<open>The presence rotation\<close>

text \<open>The city list of \<^verbatim>\<open>commands/presence.py\<close>.\<close>

definition CITIES :: "string list" where
  "CITIES =
     [''Tokyo'', ''New York'', ''London'', ''Paris'', ''Sydney'',
      ''Moscow'', ''Dubai'', ''Singapore'', ''Rome'', ''Toronto'',
      ''Berlin'', ''Madrid'', ''Seoul'', ''Mumbai'', ''Cairo'', ''Montreal'',
      ''Chicago'']"

text \<open>
  The two attributes the rotation uses: the deque \<^verbatim>\<open>_last_cities\<close> (oldest first)
  and the list \<^verbatim>\<open>_available_cities\<close>.
\<close>

record rotation =
  last_cities :: "string list"
  available_cities :: "string list"

text \<open>
  \<^verbatim>\<open>deque(maxlen=n).append\<close>: the oldest element leaves when the deque is full; with
  \<open>n = 0\<close> nothing is kept.
\<close>

definition deque_append :: "nat \<Rightarrow> 'a list \<Rightarrow> 'a \<Rightarrow> 'a list" where
  "deque_append maxlen d x = (let d' = d @ [x] in drop (length d' - maxlen) d')"

definition rotation_init :: "string list \<Rightarrow> rotation" where
  "rotation_init cities = \<lparr>last_cities = [], available_cities = cities\<rparr>"

text \<open>
  The refill of an empty pool: the cities not in the history, or, when that leaves
  nothing, all cities with the history cleared.
\<close>

definition refill :: "string list \<Rightarrow> rotation \<Rightarrow> rotation" where
  "refill cities rot =
     (if available_cities rot = []
      then (let avail = filter (\<lambda>c. c \<notin> set (last_cities rot)) cities in
            if avail = []
            then rot\<lparr>available_cities := cities, last_cities := []\<rparr>
            else rot\<lparr>available_cities := avail\<rparr>)
      else rot)"

text \<open>
  One pick. \<open>rnd\<close> stands for the outcome of \<^verbatim>\<open>random.choice\<close>, which can return any
  element of the pool; on an empty pool it raises \<^verbatim>\<open>IndexError\<close> (the result
  \<open>None\<close>). The picked city leaves the pool and enters the history, whose capacity is
  half the length of the city list.
\<close>

definition choose_city :: "string list \<Rightarrow> nat \<Rightarrow> rotation \<Rightarrow> (string \<times> rotation) option" where
  "choose_city cities rnd rot =
     (let rot1 = refill cities rot; avail = available_cities rot1 in
      if avail = [] then None
      else (let city = avail ! (rnd mod length avail) in
            Some (city,
              rot1\<lparr>available_cities := remove1 city avail,
                   last_cities := deque_append (length cities div 2) (last_cities rot1) city\<rparr>)))"

text \<open>The cities picked by successive ticks, one random outcome for each tick.\<close>

fun picks :: "string list \<Rightarrow> nat list \<Rightarrow> rotation \<Rightarrow> string list" where
  "picks cities [] rot = []"
| "picks cities (rnd # rnds) rot =
     (case choose_city cities rnd rot of
        None \<Rightarrow> []
      | Some (city, rot') \<Rightarrow> city # picks cities rnds rot')"

text \<open>
  The Presence cog: its geocoding cache with the timestamps (microseconds), and the
  rotation.
\<close>

record 'c presence =
  presence_city_cache :: "string \<rightharpoonup> 'c city_info"
  cache_timestamps :: "string \<rightharpoonup> int"
  rotation :: rotation

definition Presence_init :: "string list \<Rightarrow> 'c presence" where
  "Presence_init cities =
     \<lparr>presence_city_cache = Map.empty, cache_timestamps = Map.empty,
      rotation = rotation_init cities\<rparr>"

text \<open>
  \<^verbatim>\<open>_get_city_weather\<close>: entries of the cog's cache older than a day are dropped, a
  city is picked, resolved through the cache or \<^verbatim>\<open>getcods\<close>, and its weather is
  fetched for one day. The result is \<open>None\<close> when \<^verbatim>\<open>random.choice\<close> raised.
\<close>

definition get_city_weather ::
  "string list \<Rightarrow> nat \<Rightarrow> 'c geocoding_reply \<Rightarrow> 'w option \<Rightarrow> int
     \<Rightarrow> 'c presence \<times> ('c, 'w) providers
     \<Rightarrow> (string option \<times> 'w option) option \<times> 'c presence \<times> ('c, 'w) providers" where
  "get_city_weather cities rnd geocoding_reply weather_reply current_time st =
     (let (pr, p) = st;
          expired = (\<lambda>city. case cache_timestamps pr city of
                                 Some timestamp \<Rightarrow> current_time - timestamp > 86400 * 1000000
                               | None \<Rightarrow> False);
          pr1 = pr\<lparr>presence_city_cache :=
                       (\<lambda>city. if expired city then None else presence_city_cache pr city),
                   cache_timestamps :=
                       (\<lambda>city. if expired city then None else cache_timestamps pr city)\<rparr>
      in case choose_city cities rnd (rotation pr1) of
           None \<Rightarrow> (None, pr1\<lparr>rotation := refill cities (rotation pr1)\<rparr>, p)
         | Some (city, rot) \<Rightarrow>
             (let pr2 = pr1\<lparr>rotation := rot\<rparr> in
              case presence_city_cache pr2 city of
                Some info \<Rightarrow>
                  (let (weather, p1) = getweather weather_reply (lat info) (lon info) 1 p
                   in (Some (Some city, weather), pr2, p1))
              | None \<Rightarrow>
                  (let (city_info, p1) = getcods geocoding_reply city p in
                   case city_info of
                     Some info \<Rightarrow>
                       (let pr3 = pr2\<lparr>presence_city_cache := (presence_city_cache pr2)(city \<mapsto> info),
                                      cache_timestamps := (cache_timestamps pr2)(city \<mapsto> current_time)\<rparr>;
                            (weather, p2) = getweather weather_reply (lat info) (lon info) 1 p1
                        in (Some (Some city, weather), pr3, p2))
                   | None \<Rightarrow> (Some (None, None), pr2, p1))))"

text \<open>
  Whatever the lookups answer, a tick changes the rotation as \<open>choose_city\<close> does, so
  \<open>picks\<close> lists the cities the successive ticks pick.
\<close>

lemma get_city_weather_rotation:
  "rotation (fst (snd (get_city_weather cities rnd geocoding_reply weather_reply t (pr, p)))) =
     (case choose_city cities rnd (rotation pr) of
        None \<Rightarrow> refill cities (rotation pr)
      | Some (city, rot) \<Rightarrow> rot)"
  by (simp add: get_city_weather_def Let_def split: option.splits prod.splits)

text \<open>No two equal elements at a distance of at most \<open>n\<close>.\<close>

definition spaced :: "nat \<Rightarrow> 'a list \<Rightarrow> bool" where
  "spaced n xs \<longleftrightarrow> (\<forall>i j. i < j \<and> j < length xs \<and> j \<le> i + n \<longrightarrow> xs ! i \<noteq> xs ! j)"

text \<open>
  The invariant of the rotation after the picks \<open>hist\<close>: the pool has no duplicates and
  holds cities only, it shares no city with the history, and the history is the last
  picks, at most half the length of the city list.
\<close>

definition rot_inv :: "string list \<Rightarrow> rotation \<Rightarrow> string list \<Rightarrow> bool" where
  "rot_inv cities rot hist \<longleftrightarrow>
     distinct (available_cities rot) \<and>
     set (available_cities rot) \<subseteq> set cities \<and>
     set (available_cities rot) \<inter> set (last_cities rot) = {} \<and>
     last_cities rot = drop (length hist - length cities div 2) hist"

lemma spaced_snoc:
  assumes "spaced n xs" and "c \<notin> set (drop (length xs - n) xs)"
  shows "spaced n (xs @ [c])"
  unfolding spaced_def
proof (intro allI impI)
  fix i j
  assume h: "i < j \<and> j < length (xs @ [c]) \<and> j \<le> i + n"
  show "(xs @ [c]) ! i \<noteq> (xs @ [c]) ! j"
  proof (cases "j < length xs")
    case True
    then show ?thesis
      using h assms(1) by (simp add: spaced_def nth_append)
  next
    case False
    with h have j: "j = length xs" by simp
    have i: "i < length xs" "length xs - n \<le> i"
      using h j by auto
    have "xs ! i = drop (length xs - n) xs ! (i - (length xs - n))"
      using i by simp
    moreover have "i - (length xs - n) < length (drop (length xs - n) xs)"
      using i by simp
    ultimately have "xs ! i \<in> set (drop (length xs - n) xs)"
      by (metis nth_mem)
    then have "xs ! i \<noteq> c"
      using assms(2) by auto
    then show ?thesis
      using i j by (simp add: nth_append)
  qed
qed

lemma refill_inv:
  assumes d: "distinct cities" and ne: "cities \<noteq> []" and inv: "rot_inv cities rot hist"
  shows "rot_inv cities (refill cities rot) hist \<and> available_cities (refill cities rot) \<noteq> []"
proof (cases "available_cities rot = []")
  case False
  then show ?thesis
    using inv by (simp add: refill_def)
next
  case True
  have len: "length (last_cities rot) \<le> length cities div 2"
    using inv by (simp add: rot_inv_def)
  have "card (set (last_cities rot)) \<le> length (last_cities rot)"
    by (rule card_length)
  moreover have "length cities div 2 < length cities"
    using ne by (cases cities) simp_all
  moreover have "card (set cities) = length cities"
    using d by (rule distinct_card)
  ultimately have "card (set (last_cities rot)) < card (set cities)"
    using len by linarith
  then have "\<not> set cities \<subseteq> set (last_cities rot)"
    using card_mono [of "set (last_cities rot)" "set cities"] by auto
  then have nonempty: "filter (\<lambda>c. c \<notin> set (last_cities rot)) cities \<noteq> []"
    by (auto simp: filter_empty_conv)
  show ?thesis
    using True nonempty inv d
    by (auto simp: refill_def rot_inv_def Let_def)
qed

lemma choose_city_inv:
  assumes d: "distinct cities" and ne: "cities \<noteq> []" and inv: "rot_inv cities rot hist"
  shows "\<exists>c rot'. choose_city cities rnd rot = Some (c, rot') \<and>
           c \<in> set cities \<and>
           c \<notin> set (drop (length hist - length cities div 2) hist) \<and>
           rot_inv cities rot' (hist @ [c])"
proof -
  let ?rot1 = "refill cities rot"
  let ?avail = "available_cities ?rot1"
  let ?c = "?avail ! (rnd mod length ?avail)"
  let ?cap = "length cities div 2"
  from refill_inv [OF d ne inv]
  have inv1: "rot_inv cities ?rot1 hist" and avail: "?avail \<noteq> []"
    by simp_all
  have cin: "?c \<in> set ?avail"
    using avail by simp
  have last: "last_cities ?rot1 = drop (length hist - ?cap) hist"
    using inv1 by (simp add: rot_inv_def)
  have c_city: "?c \<in> set cities"
    using cin inv1 by (auto simp: rot_inv_def)
  have c_fresh: "?c \<notin> set (drop (length hist - ?cap) hist)"
    using cin inv1 by (auto simp: rot_inv_def)
  have dq: "deque_append ?cap (last_cities ?rot1) ?c =
      drop (length (hist @ [?c]) - ?cap) (hist @ [?c])"
  proof -
    have e: "Suc (length hist) - (length hist - ?cap + ?cap) + (length hist - ?cap) =
        Suc (length hist) - ?cap"
      by arith
    show ?thesis
      by (simp add: deque_append_def last Let_def e)
  qed
  have sub: "set (deque_append ?cap (last_cities ?rot1) ?c) \<subseteq> insert ?c (set (last_cities ?rot1))"
    using set_drop_subset [of "length (last_cities ?rot1 @ [?c]) - ?cap" "last_cities ?rot1 @ [?c]"]
    by (auto simp: deque_append_def Let_def)
  have dist: "distinct ?avail"
    using inv1 by (simp add: rot_inv_def)
  have inv2: "rot_inv cities
      (?rot1\<lparr>available_cities := remove1 ?c ?avail,
             last_cities := deque_append ?cap (last_cities ?rot1) ?c\<rparr>) (hist @ [?c])"
    unfolding rot_inv_def
  proof (intro conjI)
    show "distinct (available_cities (?rot1\<lparr>available_cities := remove1 ?c ?avail,
             last_cities := deque_append ?cap (last_cities ?rot1) ?c\<rparr>))"
      using dist by simp
    show "set (available_cities (?rot1\<lparr>available_cities := remove1 ?c ?avail,
             last_cities := deque_append ?cap (last_cities ?rot1) ?c\<rparr>)) \<subseteq> set cities"
      using inv1 dist by (auto simp: rot_inv_def)
    show "set (available_cities (?rot1\<lparr>available_cities := remove1 ?c ?avail,
             last_cities := deque_append ?cap (last_cities ?rot1) ?c\<rparr>)) \<inter>
          set (last_cities (?rot1\<lparr>available_cities := remove1 ?c ?avail,
             last_cities := deque_append ?cap (last_cities ?rot1) ?c\<rparr>)) = {}"
    proof -
      have a: "set (remove1 ?c ?avail) = set ?avail - {?c}"
        using dist by simp
      have b: "set ?avail \<inter> set (last_cities ?rot1) = {}"
        using inv1 unfolding rot_inv_def by blast
      have "(set ?avail - {?c}) \<inter> insert ?c (set (last_cities ?rot1)) = {}"
        using b by blast
      then have "(set ?avail - {?c}) \<inter> set (deque_append ?cap (last_cities ?rot1) ?c) = {}"
        using sub by blast
      then show ?thesis
        by (simp add: a)
    qed
    show "last_cities (?rot1\<lparr>available_cities := remove1 ?c ?avail,
             last_cities := deque_append ?cap (last_cities ?rot1) ?c\<rparr>) =
          drop (length (hist @ [?c]) - length cities div 2) (hist @ [?c])"
      using dq by simp
  qed
  have "choose_city cities rnd rot = Some (?c,
      ?rot1\<lparr>available_cities := remove1 ?c ?avail,
             last_cities := deque_append ?cap (last_cities ?rot1) ?c\<rparr>)"
    using avail by (simp add: choose_city_def Let_def)
  with c_city c_fresh inv2 show ?thesis by blast
qed

lemma picks_spaced:
  assumes d: "distinct cities" and ne: "cities \<noteq> []"
  shows "rot_inv cities rot hist \<Longrightarrow> spaced (length cities div 2) hist \<Longrightarrow>
         spaced (length cities div 2) (hist @ picks cities rnds rot) \<and>
         length (picks cities rnds rot) = length rnds \<and>
         set (picks cities rnds rot) \<subseteq> set cities"
proof (induction rnds arbitrary: rot hist)
  case Nil
  then show ?case by simp
next
  case (Cons rnd rnds)
  from choose_city_inv [OF d ne Cons.prems(1), of rnd]
  obtain c rot' where ch: "choose_city cities rnd rot = Some (c, rot')"
    and c: "c \<in> set cities"
    and fresh: "c \<notin> set (drop (length hist - length cities div 2) hist)"
    and inv': "rot_inv cities rot' (hist @ [c])"
    by blast
  have sp: "spaced (length cities div 2) (hist @ [c])"
    using Cons.prems(2) fresh by (rule spaced_snoc)
  from Cons.IH [OF inv' sp] show ?case
    using ch c by simp
qed

lemma first_cycle:
  "distinct (available_cities rot) \<Longrightarrow> length rnds \<le> length (available_cities rot) \<Longrightarrow>
   distinct (picks cities rnds rot) \<and> set (picks cities rnds rot) \<subseteq> set (available_cities rot) \<and>
   length (picks cities rnds rot) = length rnds"
proof (induction rnds arbitrary: rot)
  case Nil
  then show ?case by simp
next
  case (Cons rnd rnds)
  let ?avail = "available_cities rot"
  let ?c = "?avail ! (rnd mod length ?avail)"
  let ?rot' = "rot\<lparr>available_cities := remove1 ?c ?avail,
       last_cities := deque_append (length cities div 2) (last_cities rot) ?c\<rparr>"
  from Cons.prems have ne: "?avail \<noteq> []" by auto
  then have cin: "?c \<in> set ?avail" by simp
  have ch: "choose_city cities rnd rot = Some (?c, ?rot')"
    using ne by (simp add: choose_city_def refill_def Let_def)
  have d': "distinct (available_cities ?rot')"
    using Cons.prems(1) by simp
  have l': "length rnds \<le> length (available_cities ?rot')"
    using Cons.prems(2) cin by (simp add: length_remove1)
  from Cons.IH [OF d' l'] show ?case
    using ch cin Cons.prems(1) by (auto simp: set_remove1_eq)
qed

lemma rot_inv_init: "distinct cities \<Longrightarrow> rot_inv cities (rotation_init cities) []"
  by (simp add: rot_inv_def rotation_init_def)

text \<open>
  Claim C8, as amended. For a list of \<open>N \<ge> 1\<close> distinct cities and the history capacity
  \<open>N div 2\<close>, whatever the random choices: every tick picks a city of the list; two
  ticks at most \<open>N div 2\<close> apart pick different cities, so no city is picked twice in
  a window of \<open>N div 2\<close> consecutive ticks (nor of \<open>N div 2 + 1\<close>); and the first
  \<open>N\<close> ticks pick every city exactly once.
\<close>

theorem rotation_spacing_and_first_cycle:
  assumes d: "distinct cities" and ne: "cities \<noteq> []"
  shows "length (picks cities rnds (rotation_init cities)) = length rnds \<and>
         set (picks cities rnds (rotation_init cities)) \<subseteq> set cities \<and>
         (\<forall>i j. i < j \<and> j < length rnds \<and> j \<le> i + length cities div 2 \<longrightarrow>
            picks cities rnds (rotation_init cities) ! i \<noteq>
            picks cities rnds (rotation_init cities) ! j) \<and>
         (length rnds = length cities \<longrightarrow>
            distinct (picks cities rnds (rotation_init cities)) \<and>
            set (picks cities rnds (rotation_init cities)) = set cities)"
proof -
  let ?ps = "picks cities rnds (rotation_init cities)"
  have "spaced (length cities div 2) ([] :: string list)"
    by (simp add: spaced_def)
  from picks_spaced [OF d ne rot_inv_init [OF d] this, of rnds]
  have sp: "spaced (length cities div 2) ?ps" and len: "length ?ps = length rnds"
    and mem: "set ?ps \<subseteq> set cities"
    by simp_all
  have window: "\<forall>i j. i < j \<and> j < length rnds \<and> j \<le> i + length cities div 2 \<longrightarrow>
      ?ps ! i \<noteq> ?ps ! j"
    using sp len by (simp add: spaced_def)
  have cycle: "distinct ?ps \<and> set ?ps = set cities" if n: "length rnds = length cities"
  proof -
    have "distinct (available_cities (rotation_init cities))"
      using d by (simp add: rotation_init_def)
    moreover have "length rnds \<le> length (available_cities (rotation_init cities))"
      using n by (simp add: rotation_init_def)
    ultimately have fc: "distinct ?ps" "set ?ps \<subseteq> set cities"
      using first_cycle [of "rotation_init cities" rnds cities]
      by (simp_all add: rotation_init_def)
    have "card (set ?ps) = length ?ps"
      using fc(1) by (rule distinct_card)
    also have "\<dots> = card (set cities)"
      using len n d by (simp add: distinct_card)
    finally have "set ?ps = set cities"
      using fc(2) by (simp add: card_subset_eq)
    with fc(1) show ?thesis by simp
  qed
  from len mem window cycle show ?thesis by blast
qed

lemma CITIES_distinct: "distinct CITIES \<and> CITIES \<noteq> [] \<and> length CITIES = 17"
  by (simp add: CITIES_def)

theorem rotation_spacing_and_first_cycle_witness:
  "distinct CITIES \<and> CITIES \<noteq> [] \<and>
   length (picks CITIES [3, 1, 4, 1, 5, 9, 2, 6, 5, 3, 5, 8, 9, 7, 9, 3, 2] (rotation_init CITIES)) = 17 \<and>
   picks CITIES [3, 1, 4, 1, 5, 9, 2, 6, 5, 3, 5, 8, 9, 7, 9, 3, 2] (rotation_init CITIES) ! 0 \<noteq>
   picks CITIES [3, 1, 4, 1, 5, 9, 2, 6, 5, 3, 5, 8, 9, 7, 9, 3, 2] (rotation_init CITIES) ! 8 \<and>
   set (picks CITIES [3, 1, 4, 1, 5, 9, 2, 6, 5, 3, 5, 8, 9, 7, 9, 3, 2] (rotation_init CITIES)) =
     set CITIES"
proof -
  have d: "distinct CITIES" and ne: "CITIES \<noteq> []" and n: "length CITIES = 17"
    using CITIES_distinct by simp_all
  note t = rotation_spacing_and_first_cycle [OF d ne,
      of "[3, 1, 4, 1, 5, 9, 2, 6, 5, 3, 5, 8, 9, 7, 9, 3, 2]"]
  from t have a: "length (picks CITIES [3, 1, 4, 1, 5, 9, 2, 6, 5, 3, 5, 8, 9, 7, 9, 3, 2]
      (rotation_init CITIES)) = 17"
    by simp
  from t have "(0::nat) < 8 \<and> (8::nat) < length [3, 1, 4, 1, 5, 9, 2, 6, 5, 3, 5, 8, 9, 7, 9, 3, 2::nat] \<and>
      (8::nat) \<le> 0 + length CITIES div 2 \<longrightarrow>
      picks CITIES [3, 1, 4, 1, 5, 9, 2, 6, 5, 3, 5, 8, 9, 7, 9, 3, 2] (rotation_init CITIES) ! 0 \<noteq>
      picks CITIES [3, 1, 4, 1, 5, 9, 2, 6, 5, 3, 5, 8, 9, 7, 9, 3, 2] (rotation_init CITIES) ! 8"
    by blast
  then have b: "picks CITIES [3, 1, 4, 1, 5, 9, 2, 6, 5, 3, 5, 8, 9, 7, 9, 3, 2] (rotation_init CITIES) ! 0 \<noteq>
      picks CITIES [3, 1, 4, 1, 5, 9, 2, 6, 5, 3, 5, 8, 9, 7, 9, 3, 2] (rotation_init CITIES) ! 8"
    by (simp add: n)
  from t have c: "set (picks CITIES [3, 1, 4, 1, 5, 9, 2, 6, 5, 3, 5, 8, 9, 7, 9, 3, 2]
      (rotation_init CITIES)) = set CITIES"
    by (simp add: n)
  from d ne a b c show ?thesis by simp
qed

text \<open>
  Claim C8 as stated promises every city within every span of \<open>N\<close> consecutive ticks.
  After the first cycle the pool is refilled with the cities outside the history only,
  so a cycle is shorter than \<open>N\<close> and a city can wait longer: when every random choice
  is the first element of the pool, the 17 ticks from the 11th to the 27th never pick
  Toronto.
\<close>

theorem a_city_can_miss_a_span_of_N_ticks:
  "distinct CITIES \<and> length CITIES = 17 \<and> ''Toronto'' \<in> set CITIES \<and>
   length (picks CITIES (replicate 27 0) (rotation_init CITIES)) = 27 \<and>
   ''Toronto'' \<notin> set (take 17 (drop 10 (picks CITIES (replicate 27 0) (rotation_init CITIES))))"
  by code_simp

section \<open>The Settings cog and the settings a render uses\<close>

text \<open>
  \<^verbatim>\<open>int(value)\<close> on an optional sign followed by ASCII digits; \<open>None\<close> stands for
  \<^verbatim>\<open>ValueError\<close>. The other spellings Python accepts (surrounding whitespace,
  underscores between digits, digits outside ASCII) are read as \<^verbatim>\<open>ValueError\<close> here.
\<close>

fun digits_value :: "nat \<Rightarrow> string \<Rightarrow> nat option" where
  "digits_value acc [] = Some acc"
| "digits_value acc (c # cs) =
     (let n = (of_char c :: nat) in
      if 48 \<le> n \<and> n \<le> 57 then digits_value (10 * acc + (n - 48)) cs else None)"

definition int_of_str :: "string \<Rightarrow> int option" where
  "int_of_str s =
     (case s of
        [] \<Rightarrow> None
      | c # cs \<Rightarrow>
          if c = CHR ''-'' then (if cs = [] then None else map_option (\<lambda>n. - int n) (digits_value 0 cs))
          else if c = CHR ''+'' then (if cs = [] then None else map_option int (digits_value 0 cs))
          else map_option int (digits_value 0 s))"

text \<open>The Settings cog: its manager and its cache of settings objects with their timestamps.\<close>

record settings_cog =
  db :: database
  settings_cache :: "guild \<rightharpoonup> addr \<times> int"
  settings_cache_ttl :: int

definition Settings_init :: "storage \<Rightarrow> (guild \<times> row) list \<Rightarrow> settings_cog" where
  "Settings_init io file =
     \<lparr>db = DatabaseManager io file, settings_cache = Map.empty, settings_cache_ttl = 300\<rparr>"

text \<open>
  \<^verbatim>\<open>Settings.get_server_settings\<close>: a cached object younger than the TTL, or the
  manager's answer, which is cached with the current time.
\<close>

definition Settings_get_server_settings ::
  "storage \<Rightarrow> int \<Rightarrow> guild \<Rightarrow> settings_cog \<Rightarrow> addr \<times> settings_cog" where
  "Settings_get_server_settings io current_time guild_id sc =
     (let cached = settings_cache sc guild_id;
          fresh = (case cached of
                     Some (a, timestamp) \<Rightarrow> current_time - timestamp < settings_cache_ttl sc
                   | None \<Rightarrow> False)
      in if fresh then (fst (the cached), sc)
         else (let (a, db1) = get_server_settings io current_time guild_id (db sc) in
               (a, sc\<lparr>db := db1,
                      settings_cache := (settings_cache sc)(guild_id \<mapsto> (a, current_time))\<rparr>)))"

text \<open>\<^verbatim>\<open>server_settings[setting]\<close>; \<open>None\<close> stands for \<^verbatim>\<open>KeyError\<close>.\<close>

datatype pyvalue = PyStr string | PyInt int

definition getitem :: "settings \<Rightarrow> string \<Rightarrow> pyvalue option" where
  "getitem s key =
     (if key = ''units'' then Some (PyStr (units s))
      else if key = ''decimal_places'' then Some (PyInt (decimal_places s))
      else if key = ''forecast_days'' then Some (PyInt (forecast_days s))
      else None)"

text \<open>The messages the command sends.\<close>

datatype reply =
    ServersOnly
  | CurrentValue string pyvalue
  | Updated string string
  | FailedToSave
  | Rejected string
  | InvalidFormat string
  | ErrorOccurred

text \<open>
  The write at the end of the command: the manager serialises the object as it is now.
\<close>

definition save ::
  "(nat \<Rightarrow> attempt) \<Rightarrow> int \<Rightarrow> guild \<Rightarrow> addr \<Rightarrow> string \<Rightarrow> string \<Rightarrow> settings_cog
     \<Rightarrow> reply \<times> settings_cog" where
  "save env now guild_id a setting v sc =
     (let (success, sleeps, db1) = set_server_settings env now guild_id (dicts (db sc) a) (db sc)
      in (if success then Updated setting v else FailedToSave, sc\<lparr>db := db1\<rparr>))"

text \<open>An assignment to a key of the object at address \<open>a\<close>.\<close>

definition assign :: "addr \<Rightarrow> (settings \<Rightarrow> settings) \<Rightarrow> settings_cog \<Rightarrow> settings_cog" where
  "assign a f sc = sc\<lparr>db := (db sc)\<lparr>dicts := (dicts (db sc))(a := f (dicts (db sc) a))\<rparr>\<rparr>"

text \<open>
  The command \<^verbatim>\<open>/setup\<close> of the Settings cog. It removes the guild's entry from the
  cog's cache, asks the manager for the settings object, and either reports the current
  value or checks the new value, assigns it to the object it was handed and writes the
  object. A setting other than the three keys is written back unchanged.
\<close>

definition setup_command ::
  "storage \<Rightarrow> (nat \<Rightarrow> attempt) \<Rightarrow> int \<Rightarrow> guild option \<Rightarrow> string \<Rightarrow> string option \<Rightarrow> settings_cog
     \<Rightarrow> reply \<times> settings_cog" where
  "setup_command io env now guild setting val sc =
     (case guild of
        None \<Rightarrow> (ServersOnly, sc)
      | Some guild_id \<Rightarrow>
          (let sc1 = sc\<lparr>settings_cache := (settings_cache sc)(guild_id := None)\<rparr>;
               (a, db1) = get_server_settings io now guild_id (db sc1);
               sc2 = sc1\<lparr>db := db1\<rparr>
           in case val of
                None \<Rightarrow>
                  (case getitem (dicts db1 a) setting of
                     None \<Rightarrow> (ErrorOccurred, sc2)
                   | Some current \<Rightarrow> (CurrentValue setting current, sc2))
              | Some v \<Rightarrow>
                  if setting = ''units'' then
                    (if str_lower v = ''metric'' \<or> str_lower v = ''imperial''
                     then save env now guild_id a setting v
                            (assign a (\<lambda>s. s\<lparr>units := str_lower v\<rparr>) sc2)
                     else (Rejected ''Please select either Metric or Imperial'', sc2))
                  else if setting = ''decimal_places'' then
                    (case int_of_str v of
                       None \<Rightarrow> (InvalidFormat setting, sc2)
                     | Some dp \<Rightarrow>
                         if 0 \<le> dp \<and> dp \<le> 5
                         then save env now guild_id a setting v
                                (assign a (\<lambda>s. s\<lparr>decimal_places := dp\<rparr>) sc2)
                         else (Rejected ''Please select a value between 0 and 5'', sc2))
                  else if setting = ''forecast_days'' then
                    (case int_of_str v of
                       None \<Rightarrow> (InvalidFormat setting, sc2)
                     | Some days \<Rightarrow>
                         if 1 \<le> days \<and> days \<le> 5
                         then save env now guild_id a setting v
                                (assign a (\<lambda>s. s\<lparr>forecast_days := days\<rparr>) sc2)
                         else (Rejected ''Please select a value between 1 and 5'', sc2))
                  else save env now guild_id a setting v sc2))"

text \<open>
  The bot with its two cogs; \<^verbatim>\<open>get_cog('Settings')\<close> is \<open>None\<close> when the extension
  was not loaded.
\<close>

record ('c, 'w) bot =
  Settings :: "settings_cog option"
  Weather :: "('c, 'w) weather_cog"

text \<open>
  What \<^verbatim>\<open>get_guild_settings\<close> returns: an object that caches hold as well, or a new
  copy of the defaults that nothing else refers to.
\<close>

datatype settings_object = Shared addr | Copy settings

definition object_value :: "('c, 'w) bot \<Rightarrow> settings_object \<Rightarrow> settings" where
  "object_value b obj =
     (case obj of
        Copy s \<Rightarrow> s
      | Shared a \<Rightarrow> (case Settings b of Some sc \<Rightarrow> dicts (db sc) a | None \<Rightarrow> DEFAULT_SETTINGS))"

text \<open>
  \<^verbatim>\<open>Weather.get_guild_settings\<close>: the defaults without a guild; an object of the
  Weather cog's own cache when it is younger than 300 s; otherwise the Settings cog's
  answer, cached with the current time.
\<close>

definition get_guild_settings ::
  "storage \<Rightarrow> int \<Rightarrow> guild option \<Rightarrow> ('c, 'w) bot \<Rightarrow> settings_object \<times> ('c, 'w) bot" where
  "get_guild_settings io current_time guild b =
     (case guild of
        None \<Rightarrow> (Copy DEFAULT_SETTINGS, b)
      | Some guild_id \<Rightarrow>
          if guild_id = [] then (Copy DEFAULT_SETTINGS, b)
          else
            (let cached = weather_settings_cache (Weather b) guild_id;
                 fresh = (case cached of
                            Some (a, timestamp) \<Rightarrow> current_time - timestamp < 300
                          | None \<Rightarrow> False)
             in if fresh then (Shared (fst (the cached)), b)
                else (case Settings b of
                        None \<Rightarrow> (Copy DEFAULT_SETTINGS, b)
                      | Some sc \<Rightarrow>
                          (let (a, sc1) = Settings_get_server_settings io current_time guild_id sc in
                           (Shared a,
                            b\<lparr>Settings := Some sc1,
                              Weather := (Weather b)\<lparr>weather_settings_cache :=
                                (weather_settings_cache (Weather b))(guild_id \<mapsto> (a, current_time))\<rparr>\<rparr>)))))"

text \<open>
  The head of the command \<^verbatim>\<open>/weather\<close>: the settings are fetched, the arguments left
  out take the settings' values, and values outside 1..5 end the command (\<open>None\<close>).
  Otherwise these are the arguments \<open>rnd\<close>, \<open>forecast_days\<close> and \<open>settings\<close> that
  \<^verbatim>\<open>create_weather_embed\<close> receives once the lookups have succeeded.
\<close>

definition render_arguments ::
  "storage \<Rightarrow> int \<Rightarrow> guild option \<Rightarrow> int option \<Rightarrow> int option \<Rightarrow> ('c, 'w) bot
     \<Rightarrow> (int \<times> int \<times> settings) option \<times> ('c, 'w) bot" where
  "render_arguments io current_time guild rnd_arg days_arg b =
     (let (obj, b1) = get_guild_settings io current_time guild b;
          s = object_value b1 obj;
          rnd = (case rnd_arg of Some r \<Rightarrow> r | None \<Rightarrow> decimal_places s);
          days = (case days_arg of Some d \<Rightarrow> d | None \<Rightarrow> forecast_days s)
      in if \<not> (1 \<le> rnd \<and> rnd \<le> 5) \<or> \<not> (1 \<le> days \<and> days \<le> 5) then (None, b1)
         else (Some (rnd, days, s), b1))"

text \<open>The command \<^verbatim>\<open>/setup\<close> as the bot runs it, on its Settings cog.\<close>

definition setup_on_bot ::
  "storage \<Rightarrow> (nat \<Rightarrow> attempt) \<Rightarrow> int \<Rightarrow> guild option \<Rightarrow> string \<Rightarrow> string option \<Rightarrow> ('c, 'w) bot
     \<Rightarrow> reply option \<times> ('c, 'w) bot" where
  "setup_on_bot io env now guild setting val b =
     (case Settings b of
        None \<Rightarrow> (None, b)
      | Some sc \<Rightarrow>
          (let (r, sc1) = setup_command io env now guild setting val sc in (Some r, b\<lparr>Settings := Some sc1\<rparr>)))"

text \<open>
  A scenario on a new bot, for guild G1: a forecast is rendered at time 0; the three
  settings are set to imperial, 1 and 2 at the times 10, 20 and 30.
\<close>

definition new_bot :: "(int, string) bot" where
  "new_bot = \<lparr>Settings = Some (Settings_init Works []), Weather = Weather_init\<rparr>"

definition bot_at_0 :: "(int, string) bot" where
  "bot_at_0 = snd (render_arguments Works 0 (Some ''G1'') None None new_bot)"
definition bot_at_10 :: "(int, string) bot" where
  "bot_at_10 = snd (setup_on_bot Works (\<lambda>n. Committed) 10 (Some ''G1'') ''units'' (Some ''Imperial'') bot_at_0)"
definition bot_at_20 :: "(int, string) bot" where
  "bot_at_20 = snd (setup_on_bot Works (\<lambda>n. Committed) 20 (Some ''G1'') ''decimal_places'' (Some ''1'') bot_at_10)"
definition bot_at_30 :: "(int, string) bot" where
  "bot_at_30 = snd (setup_on_bot Works (\<lambda>n. Committed) 30 (Some ''G1'') ''forecast_days'' (Some ''2'') bot_at_20)"

text \<open>
  Claim C3 says that after a successful write of \<open>forecast_days = 2\<close>,
  \<open>decimal_places = 1\<close>, \<open>units = imperial\<close> every later render for the server uses
  those values. On the code: the three \<^verbatim>\<open>/setup\<close> commands succeed and the stored
  record is (imperial, 1, 2), but a render at time 40 takes the settings from the
  Weather cog's own cache, which \<^verbatim>\<open>/setup\<close> does not clear. The cached object is
  the one the first command was handed by the memo and assigned to, so the render uses
  (imperial, 2, 3).
\<close>

theorem render_after_setup_uses_stale_settings:
  "fst (setup_on_bot Works (\<lambda>n. Committed) 10 (Some ''G1'') ''units'' (Some ''Imperial'') bot_at_0) =
     Some (Updated ''units'' ''Imperial'') \<and>
   fst (setup_on_bot Works (\<lambda>n. Committed) 20 (Some ''G1'') ''decimal_places'' (Some ''1'') bot_at_10) =
     Some (Updated ''decimal_places'' ''1'') \<and>
   fst (setup_on_bot Works (\<lambda>n. Committed) 30 (Some ''G1'') ''forecast_days'' (Some ''2'') bot_at_20) =
     Some (Updated ''forecast_days'' ''2'') \<and>
   map_option (\<lambda>sc. map_of (server_settings (db sc)) ''G1'') (Settings bot_at_30) =
     Some (Some \<lparr>settings_json = \<lparr>units = ''imperial'', decimal_places = 1, forecast_days = 2\<rparr>,
                  last_updated = 30, last_accessed = 30\<rparr>) \<and>
   fst (render_arguments Works 40 (Some ''G1'') None None bot_at_30) =
     Some (2, 3, \<lparr>units = ''imperial'', decimal_places = 2, forecast_days = 3\<rparr>)"
  by code_simp

theorem render_after_setup_uses_stale_settings_witness:
  "fst (render_arguments Works 40 (Some ''G1'') None None bot_at_30) \<noteq>
     Some (1, 2, \<lparr>units = ''imperial'', decimal_places = 1, forecast_days = 2\<rparr>)"
  using render_after_setup_uses_stale_settings by simp

text \<open>
  Once the Weather cog's entry is 300 s old, the render reads through to the database
  and uses the written record.
\<close>

lemma render_after_ttl_uses_written_settings:
  "fst (render_arguments Works 300 (Some ''G1'') None None bot_at_30) =
     Some (1, 2, \<lparr>units = ''imperial'', decimal_places = 1, forecast_days = 2\<rparr>)"
  by code_simp

end
